theory Spec2Isabelle
  imports Main
begin

section \<open>In-place table rendering: the plugin of EditorPane.vue\<close>

text \<open>
  The plugin consists of the command \<open>markdownRenderTables\<close> (one pass over the
  viewport that detects table spans, validates them and replaces them by rendered
  tables) and of the \<open>onBlur\<close> reaction it hands to every table it constructs.
  The host editor, the table constructor \<open>fromMarkdown\<close> and the heading pattern are
  imported by the plugin; the model takes them as parameters or as the small host
  model below.
\<close>

subsection \<open>Data\<close>

datatype dialect = Simple | Grid | Pipe

datatype error = TypeError

text \<open>What a call of the imported constructor \<open>fromMarkdown\<close> does: it raises an
  error carrying a message, or it returns a table.\<close>

datatype construction = Malformed string | Built

text \<open>A text marker of the host: an object (identified by \<open>mid\<close>) that covers the
  lines \<open>mfirst\<close> to \<open>mlast\<close>. The plugin only creates markers from column 0 of a
  first line to the end of a last line, so the model keeps line numbers only. A cleared
  marker is no longer in the editor's list.\<close>

record marker =
  mid :: nat
  mfirst :: nat
  mlast :: nat

text \<open>The state the plugin reads and writes: the editor \<open>cm\<close> (document lines,
  line of the primary cursor, viewport, markers), the module's array \<open>tables\<close>
  (references to table objects), the error console, and the next unused object
  reference. A console entry keeps the two line numbers and the message that the source
  formats into one string.\<close>

record world =
  lines :: "string list"
  cursor :: nat
  vp_from :: nat
  vp_to :: nat
  marks :: "marker list"
  tables :: "nat list"
  console :: "(nat \<times> nat \<times> string) list"
  fresh :: nat

type_synonym candidate = "nat \<times> nat \<times> dialect"

text \<open>How one loop iteration that found a span left it: by one of the
  \<open>continue\<close> statements after the span was fixed, or by reaching the end of the
  loop body with a rendered table (whose reference is recorded).\<close>

datatype verdict =
  CursorInside | MarkerOverlap | ModeMismatch | SetextGuard | Failed string | Rendered nat

type_synonym event = "nat \<times> (candidate \<times> verdict) option"

subsection \<open>Lines and strings\<close>

text \<open>\<open>cm.getLine(n)\<close> is \<open>undefined\<close> outside the document.\<close>

definition getLine :: "string list \<Rightarrow> nat \<Rightarrow> string option" where
  "getLine ls n = (if n < length ls then Some (ls ! n) else None)"

text \<open>The characters \<open>trim()\<close> removes, among those a \<open>char\<close> can hold.\<close>

definition is_space :: "char \<Rightarrow> bool" where
  "is_space c = (of_char c \<in> {9, 10, 11, 12, 13, 32, 160 :: nat})"

text \<open>\<open>l.trim() === ''\<close>\<close>

definition blank :: "string \<Rightarrow> bool" where
  "blank s = list_all is_space s"

text \<open>\<open>/^-+$/.test(s)\<close>\<close>

definition dashes :: "string \<Rightarrow> bool" where
  "dashes s = (s \<noteq> [] \<and> list_all (\<lambda>c. c = CHR ''-'') s)"

text \<open>\<open>markdownTable.join('\n')\<close>\<close>

fun join_nl :: "string list \<Rightarrow> string" where
  "join_nl [] = []"
| "join_nl [x] = x"
| "join_nl (x # y # zs) = x @ CHR 0x0A # join_nl (y # zs)"

text \<open>\<open>md.split('\n')\<close>\<close>

fun split_nl :: "string \<Rightarrow> string list" where
  "split_nl [] = [[]]"
| "split_nl (c # cs) =
     (if c = CHR 0x0A then [] # split_nl cs
      else (case split_nl cs of [] \<Rightarrow> [[c]] | l # ls \<Rightarrow> (c # l) # ls))"

subsection \<open>The heading pattern\<close>

text \<open>
  The pattern (\<open>getTableHeadingRE\<close> of \<open>@common/regular-expressions\<close>) is imported, so
  every operation below takes it as the parameter \<open>re\<close>: \<open>re l = None\<close> when the
  line does not match, and \<open>Some Simple\<close>, \<open>Some Grid\<close>, \<open>Some Pipe\<close> when capture
  group 1, 2 or 3 is the one that matched.

  \<open>sampleHeadingRE\<close> is one such pattern, used where a concrete document is
  evaluated: three anchored character classes tried in order,
  \<open>(^[- ]+$)|(^[- +:]+$)|(^[- |:+]+$)\<close>, each class containing the one before it (the
  source remarks that group 3 also matches grid rules).
\<close>

definition over :: "string \<Rightarrow> string \<Rightarrow> bool" where
  "over cs s = (s \<noteq> [] \<and> list_all (\<lambda>c. c \<in> set cs) s)"

definition sampleHeadingRE :: "string \<Rightarrow> dialect option" where
  "sampleHeadingRE s =
     (if over ''- '' s then Some Simple
      else if over ''- +:'' s then Some Grid
      else if over ''- |:+'' s then Some Pipe
      else None)"

subsection \<open>Detection of a span (source lines 172 to 251)\<close>

text \<open>The loops \<open>for (j = j0; j < cm.lineCount(); j++)\<close> that look for the first
  empty line and set \<open>lastLine = j - 1\<close>; called on the lines from \<open>j0\<close> on, with
  \<open>j0\<close> as the counter. \<open>None\<close>: the loop ended without setting \<open>lastLine\<close>.\<close>

fun scan_blank :: "string list \<Rightarrow> nat \<Rightarrow> nat option" where
  "scan_blank [] j = None"
| "scan_blank (l # ls) j = (if blank l then Some (j - 1) else scan_blank ls (Suc j))"

text \<open>The loop of the headless simple table: an empty line leaves it without
  \<open>lastLine\<close>, a line that matches group 1 again becomes \<open>lastLine\<close>.\<close>

fun scan_headless :: "(string \<Rightarrow> dialect option) \<Rightarrow> string list \<Rightarrow> nat \<Rightarrow> nat option" where
  "scan_headless re [] j = None"
| "scan_headless re (l # ls) j =
     (if blank l then None
      else if re l = Some Simple then Some j
      else scan_headless re ls (Suc j))"

text \<open>\<open>i === 0 || cm.getLine(i - 1).trim() === ''\<close>; \<open>trim\<close> of \<open>undefined\<close>
  raises.\<close>

definition no_header :: "string list \<Rightarrow> nat \<Rightarrow> error + bool" where
  "no_header ls i =
     (if i = 0 then Inr True
      else (case getLine ls (i - 1) of None \<Rightarrow> Inl TypeError | Some p \<Rightarrow> Inr (blank p)))"

text \<open>The test after the three branches: \<open>lastLine === undefined\<close> or
  \<open>firstLine === lastLine\<close> drops the span (\<open>firstLine\<close> is set in every branch
  that gets here).\<close>

definition demarcate :: "nat \<Rightarrow> nat option \<Rightarrow> dialect \<Rightarrow> candidate option" where
  "demarcate firstLine lastLine ty =
     (case lastLine of
        None \<Rightarrow> None
      | Some l \<Rightarrow> if firstLine = l then None else Some (firstLine, l, ty))"

text \<open>The pattern is applied to \<open>cm.getLine(i)\<close>; \<open>exec\<close> turns \<open>undefined\<close>
  into the string of that name.\<close>

definition detect :: "(string \<Rightarrow> dialect option) \<Rightarrow> string list \<Rightarrow> nat \<Rightarrow> error + candidate option" where
  "detect re ls i =
     (case re (case getLine ls i of None \<Rightarrow> ''undefined'' | Some l \<Rightarrow> l) of
        None \<Rightarrow> Inr None
      | Some Simple \<Rightarrow>
          (case getLine ls (i + 1) of
             None \<Rightarrow> Inr None
           | Some nextLine \<Rightarrow>
               if blank nextLine then Inr None
               else (case no_header ls i of
                       Inl e \<Rightarrow> Inl e
                     | Inr True \<Rightarrow>
                         Inr (demarcate i (scan_headless re (drop (i + 1) ls) (i + 1)) Simple)
                     | Inr False \<Rightarrow>
                         Inr (demarcate (i - 1) (scan_blank (drop i ls) i) Simple)))
      | Some Grid \<Rightarrow> Inr (demarcate i (scan_blank (drop (i + 1) ls) (i + 1)) Grid)
      | Some Pipe \<Rightarrow>
          (case no_header ls i of
             Inl e \<Rightarrow> Inl e
           | Inr True \<Rightarrow> Inr None
           | Inr False \<Rightarrow> Inr (demarcate (i - 1) (scan_blank (drop i ls) i) Pipe)))"

subsection \<open>Validation and construction (source lines 259 to 364)\<close>

text \<open>Modelled from the spec: \<open>cm.doc.findMarks\<close> belongs to the host editor; it
  answers with the bindings that overlap the line range.\<close>

definition findMarks :: "world \<Rightarrow> nat \<Rightarrow> nat \<Rightarrow> marker list" where
  "findMarks w firstLine lastLine =
     filter (\<lambda>m. mfirst m \<le> lastLine \<and> firstLine \<le> mlast m) (marks w)"

definition markdownTable :: "string list \<Rightarrow> nat \<Rightarrow> nat \<Rightarrow> string list" where
  "markdownTable ls firstLine lastLine = map (\<lambda>n. ls ! n) [firstLine ..< Suc lastLine]"

text \<open>
  The rest of an iteration, for the span \<open>(firstLine, lastLine, ty)\<close>. \<open>getModeAt n\<close>
  is the name of the mode at column 0 of line \<open>n\<close>. Computing \<open>curTo\<close> reads the
  length of line \<open>lastLine\<close>, which raises outside the document; inside it, the lines
  of \<open>markdownTable\<close> are all defined. A constructed table and the marker laid over
  its span are two new objects; the model gives both the reference \<open>fresh w\<close>.
\<close>

definition convert ::
  "(string \<Rightarrow> dialect \<Rightarrow> construction) \<Rightarrow> (nat \<Rightarrow> string) \<Rightarrow> world \<Rightarrow> candidate
     \<Rightarrow> error + verdict \<times> world" where
  "convert fromMarkdown getModeAt w c =
     (case c of (firstLine, lastLine, ty) \<Rightarrow>
        if firstLine \<le> cursor w \<and> cursor w \<le> lastLine then Inr (CursorInside, w)
        else (case getLine (lines w) lastLine of
                None \<Rightarrow> Inl TypeError
              | Some _ \<Rightarrow>
                  if findMarks w firstLine lastLine \<noteq> [] then Inr (MarkerOverlap, w)
                  else if getModeAt firstLine \<noteq> ''markdown-zkn''
                          \<or> getModeAt lastLine \<noteq> ''markdown-zkn''
                  then Inr (ModeMismatch, w)
                  else let t = markdownTable (lines w) firstLine lastLine in
                    if ty = Simple \<and> 2 < length t \<and> dashes (t ! 1) then Inr (SetextGuard, w)
                    else (case fromMarkdown (join_nl t) ty of
                            Malformed msg \<Rightarrow>
                              Inr (Failed msg,
                                   w\<lparr>console := console w @ [(firstLine, lastLine, msg)]\<rparr>)
                          | Built \<Rightarrow>
                              Inr (Rendered (fresh w),
                                   w\<lparr>marks := marks w @
                                        [\<lparr>mid = fresh w, mfirst = firstLine, mlast = lastLine\<rparr>],
                                      tables := tables w @ [fresh w],
                                      fresh := Suc (fresh w)\<rparr>))))"

subsection \<open>The loop of \<open>markdownRenderTables\<close>\<close>

text \<open>One iteration at index \<open>i\<close>: what happened, the index the next iteration
  starts at (after the \<open>i++\<close> of the loop head), and the state.\<close>

definition body ::
  "(string \<Rightarrow> dialect option) \<Rightarrow> (string \<Rightarrow> dialect \<Rightarrow> construction) \<Rightarrow> (nat \<Rightarrow> string)
     \<Rightarrow> world \<Rightarrow> nat \<Rightarrow> error + event \<times> nat \<times> world" where
  "body re fromMarkdown getModeAt w i =
     (if getModeAt i \<noteq> ''markdown-zkn'' then Inr ((i, None), Suc i, w)
      else (case detect re (lines w) i of
              Inl e \<Rightarrow> Inl e
            | Inr None \<Rightarrow> Inr ((i, None), Suc i, w)
            | Inr (Some c) \<Rightarrow>
                (case convert fromMarkdown getModeAt w c of
                   Inl e \<Rightarrow> Inl e
                 | Inr (v, w') \<Rightarrow> Inr ((i, Some (c, v)), Suc (fst (snd c)), w'))))"

function scan ::
  "(string \<Rightarrow> dialect option) \<Rightarrow> (string \<Rightarrow> dialect \<Rightarrow> construction) \<Rightarrow> (nat \<Rightarrow> string)
     \<Rightarrow> nat \<Rightarrow> nat \<Rightarrow> world \<Rightarrow> error + event list \<times> world" where
  "scan re fromMarkdown getModeAt to i w =
     (if i < to then
        (case body re fromMarkdown getModeAt w i of
           Inl e \<Rightarrow> Inl e
         | Inr (ev, i', w') \<Rightarrow>
             (case scan re fromMarkdown getModeAt to i' w' of
                Inl e \<Rightarrow> Inl e
              | Inr (evs, w'') \<Rightarrow> Inr (ev # evs, w'')))
      else Inr ([], w))"
  by pat_completeness auto
termination
proof (relation "measure (\<lambda>(re, fromMarkdown, getModeAt, to, i, w). to - i)")
  show "wf (measure (\<lambda>(re, fromMarkdown, getModeAt, to, i, w). to - i))"
    by simp
next
  fix re :: "string \<Rightarrow> dialect option"
    and fromMarkdown :: "string \<Rightarrow> dialect \<Rightarrow> construction"
    and getModeAt :: "nat \<Rightarrow> string"
    and to i :: nat and w :: world and x ev y i' w'
  assume lt: "i < to"
    and b: "body re fromMarkdown getModeAt w i = Inr x"
    and x: "(ev, y) = x" and y: "(i', w') = y"
  have blank_ge: "\<And>ls j l. scan_blank ls j = Some l \<Longrightarrow> j - 1 \<le> l"
  proof -
    fix ls :: "string list" and j l
    show "scan_blank ls j = Some l \<Longrightarrow> j - 1 \<le> l"
      by (induction ls arbitrary: j) (fastforce split: if_splits)+
  qed
  have headless_ge: "\<And>ls j l. scan_headless re ls j = Some l \<Longrightarrow> j \<le> l"
  proof -
    fix ls :: "string list" and j l
    show "scan_headless re ls j = Some l \<Longrightarrow> j \<le> l"
      by (induction ls arbitrary: j) (fastforce split: if_splits)+
  qed
  have det: "\<And>c. detect re (lines w) i = Inr (Some c) \<Longrightarrow> i \<le> fst (snd c)"
  proof -
    fix c
    assume d: "detect re (lines w) i = Inr (Some c)"
    then show "i \<le> fst (snd c)"
      unfolding detect_def demarcate_def no_header_def
      by (auto split: option.splits dialect.splits if_splits sum.splits bool.splits
               dest!: blank_ge headless_ge)
  qed
  from b x y have "i < i'"
    unfolding body_def
    by (auto split: if_splits sum.splits option.splits prod.splits dest!: det)
  with lt show "((re, fromMarkdown, getModeAt, to, i', w'), (re, fromMarkdown, getModeAt, to, i, w))
                  \<in> measure (\<lambda>(re, fromMarkdown, getModeAt, to, i, w). to - i)"
    by simp
qed

declare scan.simps [simp del]

text \<open>The command: the viewport is read once, before the loop.\<close>

definition markdownRenderTables ::
  "(string \<Rightarrow> dialect option) \<Rightarrow> (string \<Rightarrow> dialect \<Rightarrow> construction) \<Rightarrow> (nat \<Rightarrow> string)
     \<Rightarrow> world \<Rightarrow> error + event list \<times> world" where
  "markdownRenderTables re fromMarkdown getModeAt w =
     scan re fromMarkdown getModeAt (vp_to w) (vp_from w) w"

subsection \<open>The \<open>onBlur\<close> reaction (source lines 316 to 342)\<close>

text \<open>What a call of \<open>textMarker.find()\<close> can answer, as far as the reaction
  tells the answers apart: the value \<open>false\<close> (which line 318 compares with), the
  value \<open>undefined\<close>, or an object with \<open>from\<close> and \<open>to\<close>.\<close>

datatype answer = FalseValue | UndefinedValue | FromTo nat nat

text \<open>\<open>textMarker.find()\<close> belongs to the host editor, which is imported. By the
  editor's documentation it answers with the \<open>from\<close> and \<open>to\<close> of a marker that is in
  the document, and with \<open>undefined\<close> once the marker was cleared; it never answers
  \<open>false\<close>.\<close>

definition find_marker :: "world \<Rightarrow> nat \<Rightarrow> answer" where
  "find_marker w k =
     (case filter (\<lambda>m. mid m = k) (marks w) of
        [] \<Rightarrow> UndefinedValue
      | m # _ \<Rightarrow> FromTo (mfirst m) (mlast m))"

text \<open>\<open>tables.indexOf(t)\<close>: the first index, or \<open>-1\<close>.\<close>

fun indexOf :: "nat list \<Rightarrow> nat \<Rightarrow> int" where
  "indexOf [] t = - 1"
| "indexOf (x # xs) t =
     (if x = t then 0 else (let k = indexOf xs t in if k < 0 then - 1 else k + 1))"

text \<open>\<open>tables.splice(start, 1)\<close>: a negative \<open>start\<close> counts from the end.\<close>

definition splice :: "'a list \<Rightarrow> int \<Rightarrow> 'a list" where
  "splice xs start =
     (let n = int (length xs);
          s = (if start < 0 then max (n + start) 0 else min start n)
      in take (nat s) xs @ drop (Suc (nat s)) xs)"

text \<open>Modelled from the spec: \<open>cm.replaceRange\<close> belongs to the host editor; it
  replaces the text of the bound range, here whole lines, by the given lines. How the
  host moves other bindings and the cursor is not part of the model.\<close>

definition replaceRange :: "string list \<Rightarrow> nat \<times> nat \<Rightarrow> world \<Rightarrow> world" where
  "replaceRange new r w =
     w\<lparr>lines := take (fst r) (lines w) @ new @ drop (Suc (snd r)) (lines w)\<rparr>"

text \<open>\<open>textMarker.clear()\<close>\<close>

definition clear :: "nat \<Rightarrow> world \<Rightarrow> world" where
  "clear k w = w\<lparr>marks := filter (\<lambda>m. mid m \<noteq> k) (marks w)\<rparr>"

text \<open>
  The reaction of one constructed table. \<open>textMarker\<close> is the variable of the
  iteration that the closure captured: \<open>None\<close> while it is still \<open>undefined\<close>,
  afterwards the marker of that table. \<open>t\<close> is the table the caller passes and
  \<open>md\<close> what \<open>t.getMarkdownTable()\<close> returns.

  Line 318 returns when \<open>textMarker\<close> is undefined or \<open>find()\<close> is strictly equal
  to \<open>false\<close>. Line 330 calls \<open>find()\<close> again and destructures the answer, which
  raises a TypeError on \<open>undefined\<close>; nothing was written before that line. (The
  branch for \<open>false\<close> at line 330 is behind the return of line 318.)
\<close>

definition onBlur :: "nat option \<Rightarrow> nat \<Rightarrow> string \<Rightarrow> world \<Rightarrow> error + world" where
  "onBlur textMarker t md w =
     (case textMarker of
        None \<Rightarrow> Inr w
      | Some k \<Rightarrow>
          if find_marker w k = FalseValue then Inr w
          else
            let found = indexOf (tables w) t;
                md' = butlast md
            in (case find_marker w k of
                  FalseValue \<Rightarrow> Inl TypeError
                | UndefinedValue \<Rightarrow> Inl TypeError
                | FromTo a b \<Rightarrow>
                    let w1 = replaceRange (split_nl md') (a, b) w;
                        w2 = clear k w1
                    in Inr (if found \<noteq> 0 then w2\<lparr>tables := splice (tables w2) found\<rparr>
                            else w2)))"

subsection \<open>Reading the events of a pass\<close>






subsection \<open>Parameters for concrete documents\<close>

text \<open>An editor in which nothing was rendered yet: the document, the cursor line and
  the viewport, no markers, no tables, an empty console.\<close>

definition editor :: "string list \<Rightarrow> nat \<Rightarrow> nat \<Rightarrow> nat \<Rightarrow> world" where
  "editor ls cur vf vt =
     \<lparr>lines = ls, cursor = cur, vp_from = vf, vp_to = vt, marks = [], tables = [],
      console = [], fresh = 0\<rparr>"

text \<open>Mode accessors: Markdown on every line; a YAML block on the first \<open>k\<close> lines.\<close>

definition allMarkdown :: "nat \<Rightarrow> string" where
  "allMarkdown n = ''markdown-zkn''"

definition frontmatter :: "nat \<Rightarrow> nat \<Rightarrow> string" where
  "frontmatter k n = (if n < k then ''yaml'' else ''markdown-zkn'')"

text \<open>Constructors: one that builds a table from every text, one that raises on the
  text \<open>t\<close> and builds a table from every other.\<close>

definition accepts :: "string \<Rightarrow> dialect \<Rightarrow> construction" where
  "accepts s ty = Built"

definition rejects :: "string \<Rightarrow> string \<Rightarrow> dialect \<Rightarrow> construction" where
  "rejects t s ty = (if s = t then Malformed ''malformed'' else Built)"

section \<open>Properties\<close>

subsection \<open>The forward scans and the detected span\<close>

lemma scan_blank_found:
  "n < length xs \<Longrightarrow> blank (xs ! n) \<Longrightarrow> (\<forall>k<n. \<not> blank (xs ! k))
     \<Longrightarrow> scan_blank xs j = Some (j + n - 1)"
proof (induction xs arbitrary: j n)
  case Nil
  then show ?case by simp
next
  case (Cons x xs)
  show ?case
  proof (cases n)
    case 0
    with Cons.prems show ?thesis by simp
  next
    case (Suc m)
    with Cons.prems have x: "\<not> blank x" by auto
    from Suc Cons.prems have "m < length xs" "blank (xs ! m)" "\<forall>k<m. \<not> blank (xs ! k)"
      by auto
    then have "scan_blank xs (Suc j) = Some (Suc j + m - 1)" by (rule Cons.IH)
    with x Suc show ?thesis by simp
  qed
qed

lemma scan_blank_range:
  "scan_blank xs j = Some l \<Longrightarrow> j - 1 \<le> l \<and> l < j + length xs"
  by (induction xs arbitrary: j) (fastforce split: if_splits)+

lemma scan_headless_found:
  "n < length xs \<Longrightarrow> blank (xs ! n) \<or> re (xs ! n) = Some Simple
     \<Longrightarrow> (\<forall>k<n. \<not> blank (xs ! k) \<and> re (xs ! k) \<noteq> Some Simple)
     \<Longrightarrow> scan_headless re xs j = (if blank (xs ! n) then None else Some (j + n))"
proof (induction xs arbitrary: j n)
  case Nil
  then show ?case by simp
next
  case (Cons x xs)
  show ?case
  proof (cases n)
    case 0
    with Cons.prems show ?thesis by auto
  next
    case (Suc m)
    with Cons.prems have x: "\<not> blank x" "re x \<noteq> Some Simple" by auto
    from Suc Cons.prems have "m < length xs" "blank (xs ! m) \<or> re (xs ! m) = Some Simple"
      "\<forall>k<m. \<not> blank (xs ! k) \<and> re (xs ! k) \<noteq> Some Simple"
      by auto
    then have "scan_headless re xs (Suc j) = (if blank (xs ! m) then None else Some (Suc j + m))"
      by (rule Cons.IH)
    with x Suc show ?thesis by simp
  qed
qed

lemma scan_headless_range:
  "scan_headless re xs j = Some l \<Longrightarrow> j \<le> l \<and> l < j + length xs"
  by (induction xs arbitrary: j) (fastforce split: if_splits)+

text \<open>The scans as the loop body calls them, on the rest of the document.\<close>

lemma drop_blank_found:
  assumes "j0 \<le> j" "j < length ls" "blank (ls ! j)" "\<forall>k. j0 \<le> k \<and> k < j \<longrightarrow> \<not> blank (ls ! k)"
  shows "scan_blank (drop j0 ls) j0 = Some (j - 1)"
proof -
  have "scan_blank (drop j0 ls) j0 = Some (j0 + (j - j0) - 1)"
    using assms by (intro scan_blank_found) auto
  with assms show ?thesis by simp
qed

lemma drop_headless_found:
  assumes "j0 \<le> j" "j < length ls" "blank (ls ! j) \<or> re (ls ! j) = Some Simple"
    "\<forall>k. j0 \<le> k \<and> k < j \<longrightarrow> \<not> blank (ls ! k) \<and> re (ls ! k) \<noteq> Some Simple"
  shows "scan_headless re (drop j0 ls) j0 = (if blank (ls ! j) then None else Some j)"
proof -
  have "scan_headless re (drop j0 ls) j0 =
          (if blank (drop j0 ls ! (j - j0)) then None else Some (j0 + (j - j0)))"
    using assms by (intro scan_headless_found) auto
  with assms show ?thesis by simp
qed

text \<open>A detected span has at least two lines, lies in the document, ends at or after
  the heading line and starts at the heading line or one line above it.\<close>

lemma detect_range:
  assumes "detect re ls i = Inr (Some (f, l, ty))"
  shows "f < l \<and> l < length ls \<and> i \<le> l \<and> f \<le> i \<and> i \<le> Suc f"
  using assms unfolding detect_def demarcate_def no_header_def getLine_def
  by (auto split: option.splits dialect.splits if_splits sum.splits bool.splits
           dest!: scan_blank_range scan_headless_range)

text \<open>Detection raises only beyond the line after the document, and only when the
  pattern matches the string that \<open>exec\<close> makes of \<open>undefined\<close>.\<close>

lemma detect_ok:
  "i \<le> length ls \<or> re ''undefined'' = None \<Longrightarrow> \<exists>r. detect re ls i = Inr r"
  unfolding detect_def no_header_def getLine_def
  by (auto split: option.splits dialect.splits if_splits sum.splits bool.splits)

lemma scan_blank_none:
  "(\<forall>k<length xs. \<not> blank (xs ! k)) \<Longrightarrow> scan_blank xs j = None"
proof (induction xs arbitrary: j)
  case Nil
  then show ?case by simp
next
  case (Cons x xs)
  from Cons.prems have "\<not> blank x" by auto
  moreover from Cons.prems have "\<forall>k<length xs. \<not> blank (xs ! k)" by auto
  ultimately show ?case using Cons.IH by simp
qed

lemma scan_headless_none:
  "(\<forall>k<length xs. \<not> blank (xs ! k) \<and> re (xs ! k) \<noteq> Some Simple)
     \<Longrightarrow> scan_headless re xs j = None"
proof (induction xs arbitrary: j)
  case Nil
  then show ?case by simp
next
  case (Cons x xs)
  from Cons.prems have "\<not> blank x" "re x \<noteq> Some Simple" by auto
  moreover from Cons.prems have
    "\<forall>k<length xs. \<not> blank (xs ! k) \<and> re (xs ! k) \<noteq> Some Simple" by auto
  ultimately show ?case using Cons.IH by simp
qed

lemma drop_blank_none:
  assumes "\<forall>k. j0 \<le> k \<and> k < length ls \<longrightarrow> \<not> blank (ls ! k)"
  shows "scan_blank (drop j0 ls) j0 = None"
  using assms by (intro scan_blank_none) auto

lemma drop_headless_none:
  assumes "\<forall>k. j0 \<le> k \<and> k < length ls \<longrightarrow> \<not> blank (ls ! k) \<and> re (ls ! k) \<noteq> Some Simple"
  shows "scan_headless re (drop j0 ls) j0 = None"
  using assms by (intro scan_headless_none) auto

text \<open>What \<open>detect\<close> answers in each branch, from where the terminating line lies in
  the document.\<close>

lemma detect_grid:
  assumes "i < length ls" and "re (ls ! i) = Some Grid"
  shows "i < j \<and> j < length ls \<and> blank (ls ! j) \<and> (\<forall>k. i < k \<and> k < j \<longrightarrow> \<not> blank (ls ! k))
           \<Longrightarrow> detect re ls i = Inr (if j = Suc i then None else Some (i, j - 1, Grid))"
    and "(\<forall>k. i < k \<and> k < length ls \<longrightarrow> \<not> blank (ls ! k)) \<Longrightarrow> detect re ls i = Inr None"
proof -
  from assms have gl: "getLine ls i = Some (ls ! i)" by (simp add: getLine_def)
  {
    assume a: "i < j \<and> j < length ls \<and> blank (ls ! j) \<and> (\<forall>k. i < k \<and> k < j \<longrightarrow> \<not> blank (ls ! k))"
    then have "scan_blank (drop (i + 1) ls) (i + 1) = Some (j - 1)"
      by (intro drop_blank_found) auto
    moreover from a have "(i = j - 1) = (j = Suc i)" by auto
    ultimately show "detect re ls i = Inr (if j = Suc i then None else Some (i, j - 1, Grid))"
      using assms gl by (simp add: detect_def demarcate_def)
  }
  {
    assume "\<forall>k. i < k \<and> k < length ls \<longrightarrow> \<not> blank (ls ! k)"
    then have "scan_blank (drop (i + 1) ls) (i + 1) = None"
      by (intro drop_blank_none) auto
    then show "detect re ls i = Inr None"
      using assms gl by (simp add: detect_def demarcate_def)
  }
qed

lemma detect_pipe:
  assumes "i < length ls" and "re (ls ! i) = Some Pipe" and "0 < i" and "\<not> blank (ls ! (i - 1))"
  shows "i \<le> j \<and> j < length ls \<and> blank (ls ! j) \<and> (\<forall>k. i \<le> k \<and> k < j \<longrightarrow> \<not> blank (ls ! k))
           \<Longrightarrow> detect re ls i = Inr (if j = i then None else Some (i - 1, j - 1, Pipe))"
    and "(\<forall>k. i \<le> k \<and> k < length ls \<longrightarrow> \<not> blank (ls ! k)) \<Longrightarrow> detect re ls i = Inr None"
proof -
  from assms have gl: "getLine ls i = Some (ls ! i)" and nh: "no_header ls i = Inr False"
    by (auto simp: getLine_def no_header_def)
  {
    assume a: "i \<le> j \<and> j < length ls \<and> blank (ls ! j) \<and> (\<forall>k. i \<le> k \<and> k < j \<longrightarrow> \<not> blank (ls ! k))"
    then have "scan_blank (drop i ls) i = Some (j - 1)"
      by (intro drop_blank_found) auto
    moreover from a assms have "(i - 1 = j - 1) = (j = i)" by auto
    ultimately show "detect re ls i = Inr (if j = i then None else Some (i - 1, j - 1, Pipe))"
      using assms gl nh by (simp add: detect_def demarcate_def)
  }
  {
    assume "\<forall>k. i \<le> k \<and> k < length ls \<longrightarrow> \<not> blank (ls ! k)"
    then have "scan_blank (drop i ls) i = None"
      by (intro drop_blank_none) auto
    then show "detect re ls i = Inr None"
      using assms gl nh by (simp add: detect_def demarcate_def)
  }
qed

lemma detect_headed:
  assumes "re (ls ! i) = Some Simple" and "Suc i < length ls" and "\<not> blank (ls ! Suc i)"
    and "0 < i" and "\<not> blank (ls ! (i - 1))"
  shows "i \<le> j \<and> j < length ls \<and> blank (ls ! j) \<and> (\<forall>k. i \<le> k \<and> k < j \<longrightarrow> \<not> blank (ls ! k))
           \<Longrightarrow> detect re ls i = Inr (if j = i then None else Some (i - 1, j - 1, Simple))"
    and "(\<forall>k. i \<le> k \<and> k < length ls \<longrightarrow> \<not> blank (ls ! k)) \<Longrightarrow> detect re ls i = Inr None"
proof -
  from assms have gl: "getLine ls i = Some (ls ! i)" "getLine ls (i + 1) = Some (ls ! Suc i)"
    and nh: "no_header ls i = Inr False"
    by (auto simp: getLine_def no_header_def)
  {
    assume a: "i \<le> j \<and> j < length ls \<and> blank (ls ! j) \<and> (\<forall>k. i \<le> k \<and> k < j \<longrightarrow> \<not> blank (ls ! k))"
    then have "scan_blank (drop i ls) i = Some (j - 1)"
      by (intro drop_blank_found) auto
    moreover from a assms have "(i - 1 = j - 1) = (j = i)" by auto
    ultimately show "detect re ls i = Inr (if j = i then None else Some (i - 1, j - 1, Simple))"
      using assms gl nh by (simp add: detect_def demarcate_def)
  }
  {
    assume "\<forall>k. i \<le> k \<and> k < length ls \<longrightarrow> \<not> blank (ls ! k)"
    then have "scan_blank (drop i ls) i = None"
      by (intro drop_blank_none) auto
    then show "detect re ls i = Inr None"
      using assms gl nh by (simp add: detect_def demarcate_def)
  }
qed

lemma detect_headless:
  assumes "re (ls ! i) = Some Simple" and "Suc i < length ls" and "\<not> blank (ls ! Suc i)"
    and "i = 0 \<or> blank (ls ! (i - 1))"
  shows "i < j \<and> j < length ls \<and> (blank (ls ! j) \<or> re (ls ! j) = Some Simple)
            \<and> (\<forall>k. i < k \<and> k < j \<longrightarrow> \<not> blank (ls ! k) \<and> re (ls ! k) \<noteq> Some Simple)
           \<Longrightarrow> detect re ls i = Inr (if blank (ls ! j) then None else Some (i, j, Simple))"
    and "(\<forall>k. i < k \<and> k < length ls \<longrightarrow> \<not> blank (ls ! k) \<and> re (ls ! k) \<noteq> Some Simple)
           \<Longrightarrow> detect re ls i = Inr None"
proof -
  from assms have gl: "getLine ls i = Some (ls ! i)" "getLine ls (i + 1) = Some (ls ! Suc i)"
    and nh: "no_header ls i = Inr True"
    by (auto simp: getLine_def no_header_def)
  {
    assume a: "i < j \<and> j < length ls \<and> (blank (ls ! j) \<or> re (ls ! j) = Some Simple)
            \<and> (\<forall>k. i < k \<and> k < j \<longrightarrow> \<not> blank (ls ! k) \<and> re (ls ! k) \<noteq> Some Simple)"
    then have "scan_headless re (drop (i + 1) ls) (i + 1) = (if blank (ls ! j) then None else Some j)"
      by (intro drop_headless_found) auto
    moreover from a have "i \<noteq> j" by simp
    ultimately show "detect re ls i = Inr (if blank (ls ! j) then None else Some (i, j, Simple))"
      using assms gl nh by (simp add: detect_def demarcate_def)
  }
  {
    assume "\<forall>k. i < k \<and> k < length ls \<longrightarrow> \<not> blank (ls ! k) \<and> re (ls ! k) \<noteq> Some Simple"
    then have "scan_headless re (drop (i + 1) ls) (i + 1) = None"
      by (intro drop_headless_none) auto
    then show "detect re ls i = Inr None"
      using assms gl nh by (simp add: detect_def demarcate_def)
  }
qed

lemma all_from: "(\<forall>k. a \<le> k \<and> k < b \<longrightarrow> P k) = list_all P [a ..< b]"
  by (auto simp: list_all_iff)

lemma all_after: "(\<forall>k. a < k \<and> k < b \<longrightarrow> P k) = list_all P [Suc a ..< b]"
  by (auto simp: list_all_iff)



text \<open>
  Claim C8, as the code has it. Line \<open>i\<close> matches alternative 1 and the next line
  exists and is not blank. Without a header (first line, or blank line before): with
  \<open>j\<close> the first later line that is blank or matches alternative 1 again, the span is
  \<open>(i, j)\<close> when line \<open>j\<close> is not blank and nothing is detected when it is blank
  (the blank test comes before the pattern). With a header: with \<open>j\<close> the first blank
  line at or after \<open>i\<close>, the span is \<open>(i - 1, j - 1)\<close> when \<open>j\<close> lies after \<open>i\<close>,
  and nothing is detected when line \<open>i\<close> itself is blank.
\<close>

theorem simple_span:
  assumes "re (ls ! i) = Some Simple" and "Suc i < length ls" and "\<not> blank (ls ! Suc i)"
  shows "((i = 0 \<or> blank (ls ! (i - 1))) \<and> i < j \<and> j < length ls
            \<and> (blank (ls ! j) \<or> re (ls ! j) = Some Simple)
            \<and> (\<forall>k. i < k \<and> k < j \<longrightarrow> \<not> blank (ls ! k) \<and> re (ls ! k) \<noteq> Some Simple)
          \<longrightarrow> detect re ls i = Inr (if blank (ls ! j) then None else Some (i, j, Simple)))
       \<and> (0 < i \<and> \<not> blank (ls ! (i - 1)) \<and> i \<le> j \<and> j < length ls \<and> blank (ls ! j)
            \<and> (\<forall>k. i \<le> k \<and> k < j \<longrightarrow> \<not> blank (ls ! k))
          \<longrightarrow> detect re ls i = Inr (if j = i then None else Some (i - 1, j - 1, Simple)))"
proof (intro conjI impI)
  from assms have gl: "getLine ls i = Some (ls ! i)" "getLine ls (i + 1) = Some (ls ! Suc i)"
    by (auto simp: getLine_def)
  {
    assume a: "(i = 0 \<or> blank (ls ! (i - 1))) \<and> i < j \<and> j < length ls
            \<and> (blank (ls ! j) \<or> re (ls ! j) = Some Simple)
            \<and> (\<forall>k. i < k \<and> k < j \<longrightarrow> \<not> blank (ls ! k) \<and> re (ls ! k) \<noteq> Some Simple)"
    then have sh: "scan_headless re (drop (i + 1) ls) (i + 1) = (if blank (ls ! j) then None else Some j)"
      by (intro drop_headless_found) auto
    from a assms have nh: "no_header ls i = Inr True"
      by (auto simp: no_header_def getLine_def)
    from a have "i \<noteq> j" by simp
    with assms gl sh nh show "detect re ls i = Inr (if blank (ls ! j) then None else Some (i, j, Simple))"
      by (simp add: detect_def demarcate_def)
  }
  {
    assume a: "0 < i \<and> \<not> blank (ls ! (i - 1)) \<and> i \<le> j \<and> j < length ls \<and> blank (ls ! j)
            \<and> (\<forall>k. i \<le> k \<and> k < j \<longrightarrow> \<not> blank (ls ! k))"
    then have sb: "scan_blank (drop i ls) i = Some (j - 1)"
      by (intro drop_blank_found) auto
    from a assms have nh: "no_header ls i = Inr False"
      by (auto simp: no_header_def getLine_def)
    from a have "(i - 1 = j - 1) = (j = i)" by auto
    with assms gl sb nh show "detect re ls i = Inr (if j = i then None else Some (i - 1, j - 1, Simple))"
      by (simp add: detect_def demarcate_def)
  }
qed

text \<open>A headless table between two rules, and a table with a header line.\<close>

theorem simple_span_witness:
  "sampleHeadingRE ([''--- ---'', ''a   b'', ''--- ---'', ''''] ! 0) = Some Simple
   \<and> \<not> blank ([''--- ---'', ''a   b'', ''--- ---'', ''''] ! 1)
   \<and> sampleHeadingRE ([''--- ---'', ''a   b'', ''--- ---'', ''''] ! 2) = Some Simple
   \<and> detect sampleHeadingRE [''--- ---'', ''a   b'', ''--- ---'', ''''] 0
        = Inr (Some (0, 2, Simple))
   \<and> sampleHeadingRE ([''A   B'', ''--- ---'', ''a   b'', ''''] ! 1) = Some Simple
   \<and> \<not> blank ([''A   B'', ''--- ---'', ''a   b'', ''''] ! 0)
   \<and> \<not> blank ([''A   B'', ''--- ---'', ''a   b'', ''''] ! 2)
   \<and> blank ([''A   B'', ''--- ---'', ''a   b'', ''''] ! 3)
   \<and> detect sampleHeadingRE [''A   B'', ''--- ---'', ''a   b'', ''''] 1
        = Inr (Some (0, 2, Simple))"
proof -
  let ?ls = "[''--- ---'', ''a   b'', ''--- ---'', '''']"
  let ?hs = "[''A   B'', ''--- ---'', ''a   b'', '''']"
  have l1: "\<forall>k. 0 < k \<and> k < 2 \<longrightarrow> \<not> blank (?ls ! k) \<and> sampleHeadingRE (?ls ! k) \<noteq> Some Simple"
  proof (intro allI impI)
    fix k :: nat
    assume "0 < k \<and> k < 2"
    then have "k = 1" by arith
    then show "\<not> blank (?ls ! k) \<and> sampleHeadingRE (?ls ! k) \<noteq> Some Simple"
      by (simp add: blank_def is_space_def sampleHeadingRE_def over_def)
  qed
  have l2: "\<forall>k. 1 \<le> k \<and> k < 3 \<longrightarrow> \<not> blank (?hs ! k)"
  proof (intro allI impI)
    fix k :: nat
    assume "1 \<le> k \<and> k < 3"
    then have "k = 1 \<or> k = 2" by arith
    then show "\<not> blank (?hs ! k)"
      by (auto simp: blank_def is_space_def)
  qed
  have h: "sampleHeadingRE (?ls ! 0) = Some Simple" "\<not> blank (?ls ! 1)" "\<not> blank (?ls ! 2)"
    "sampleHeadingRE (?ls ! 2) = Some Simple"
    "sampleHeadingRE (?hs ! 1) = Some Simple" "\<not> blank (?hs ! 0)" "\<not> blank (?hs ! 2)"
    "blank (?hs ! 3)"
    by (simp_all add: sampleHeadingRE_def over_def blank_def is_space_def)
  show ?thesis
    using simple_span [of sampleHeadingRE ?ls 0 2] simple_span [of sampleHeadingRE ?hs 1 3]
      l1 l2 h
    by simp
qed

text \<open>
  The claim as written gives the span \<open>(i - 1, j - 1)\<close> in the headed case for every
  heading line. In the document below line 1 holds one space: it matches alternative 1,
  it has a header line above and a non-blank line below, and it is itself the first blank
  line at or after 1. The span would be \<open>(0, 0)\<close>; the code detects nothing.
\<close>

theorem simple_span_counterexample:
  "sampleHeadingRE ([''a'', '' '', ''b'', ''''] ! 1) = Some Simple
   \<and> \<not> blank ([''a'', '' '', ''b'', ''''] ! 2)
   \<and> \<not> blank ([''a'', '' '', ''b'', ''''] ! 0)
   \<and> blank ([''a'', '' '', ''b'', ''''] ! 1)
   \<and> detect sampleHeadingRE [''a'', '' '', ''b'', ''''] 1 \<noteq> Inr (Some (0, 0, Simple))
   \<and> detect sampleHeadingRE [''a'', '' '', ''b'', ''''] 1 = Inr None"
  by (simp add: sampleHeadingRE_def over_def blank_def is_space_def detect_def getLine_def
        no_header_def demarcate_def)

subsection \<open>One iteration\<close>

lemma markdownTable_length: "f \<le> l \<Longrightarrow> length (markdownTable ls f l) = Suc (l - f)"
  by (simp add: markdownTable_def Suc_diff_le)

lemma markdownTable_nth: "f + k \<le> l \<Longrightarrow> markdownTable ls f l ! k = ls ! (f + k)"
  unfolding markdownTable_def by (simp del: upt_Suc)

lemma getLine_in: "n < length ls \<Longrightarrow> getLine ls n = Some (ls ! n)"
  by (simp add: getLine_def)

text \<open>
  Claim C5. When the line of the primary cursor lies within the span detected at \<open>i\<close>,
  the iteration leaves by the cursor test: nothing is constructed, bound or registered
  (the state is the one before), and the loop goes on after \<open>lastLine\<close>.
\<close>

theorem cursor_inside_rejected:
  assumes "getModeAt i = ''markdown-zkn''"
    and "detect re (lines w) i = Inr (Some (f, l, ty))"
    and "f \<le> cursor w" and "cursor w \<le> l"
  shows "body re fromMarkdown getModeAt w i = Inr ((i, Some ((f, l, ty), CursorInside)), Suc l, w)"
  using assms by (simp add: body_def convert_def)

text \<open>The cursor stands on the body row of a pipe table.\<close>

theorem cursor_inside_rejected_witness:
  "detect sampleHeadingRE [''| A | B |'', ''| - | - |'', ''| 1 | 2 |'', ''''] 1
     = Inr (Some (0, 2, Pipe))
   \<and> body sampleHeadingRE accepts allMarkdown
        (editor [''| A | B |'', ''| - | - |'', ''| 1 | 2 |'', ''''] 2 0 4) 1
     = Inr ((1, Some ((0, 2, Pipe), CursorInside)), 3,
            editor [''| A | B |'', ''| - | - |'', ''| 1 | 2 |'', ''''] 2 0 4)"
proof -
  let ?w = "editor [''| A | B |'', ''| - | - |'', ''| 1 | 2 |'', ''''] 2 0 4"
  have d: "detect sampleHeadingRE [''| A | B |'', ''| - | - |'', ''| 1 | 2 |'', ''''] 1
     = Inr (Some (0, 2, Pipe))"
    by code_simp
  have w: "lines ?w = [''| A | B |'', ''| - | - |'', ''| 1 | 2 |'', '''']" "cursor ?w = 2"
    by (simp_all add: editor_def)
  show ?thesis
    using d w cursor_inside_rejected [of allMarkdown 1 sampleHeadingRE ?w 0 2 Pipe accepts]
    by (simp add: allMarkdown_def)
qed

text \<open>
  Claim C6. When the mode at column 0 of \<open>firstLine\<close> or of \<open>lastLine\<close> is not
  Markdown, the iteration leaves by the mode test or by one of the two tests before it;
  in each case the state is the one before: the span is not converted.
\<close>

theorem mode_mismatch_rejected:
  assumes "getModeAt i = ''markdown-zkn''"
    and "detect re (lines w) i = Inr (Some (f, l, ty))"
    and "getModeAt f \<noteq> ''markdown-zkn'' \<or> getModeAt l \<noteq> ''markdown-zkn''"
  shows "\<exists>v. (v = CursorInside \<or> v = MarkerOverlap \<or> v = ModeMismatch)
           \<and> body re fromMarkdown getModeAt w i = Inr ((i, Some ((f, l, ty), v)), Suc l, w)"
proof -
  from assms(2) have "l < length (lines w)" by (auto dest: detect_range)
  then have "getLine (lines w) l = Some (lines w ! l)" by (rule getLine_in)
  with assms show ?thesis
    by (auto simp: body_def convert_def)
qed

text \<open>A frontmatter of three lines, directly followed by a rule and a paragraph: the
  span found at the rule starts on the closing line of the frontmatter.\<close>

theorem mode_mismatch_rejected_witness:
  "detect sampleHeadingRE [''---'', ''a: b'', ''---'', ''-----'', ''text'', ''''] 3
     = Inr (Some (2, 4, Simple))
   \<and> frontmatter 3 2 \<noteq> ''markdown-zkn''
   \<and> body sampleHeadingRE accepts (frontmatter 3)
        (editor [''---'', ''a: b'', ''---'', ''-----'', ''text'', ''''] 5 0 6) 3
     = Inr ((3, Some ((2, 4, Simple), ModeMismatch)), 5,
            editor [''---'', ''a: b'', ''---'', ''-----'', ''text'', ''''] 5 0 6)"
proof -
  let ?w = "editor [''---'', ''a: b'', ''---'', ''-----'', ''text'', ''''] 5 0 6"
  have d: "detect sampleHeadingRE [''---'', ''a: b'', ''---'', ''-----'', ''text'', ''''] 3
     = Inr (Some (2, 4, Simple))"
    by code_simp
  have w: "lines ?w = [''---'', ''a: b'', ''---'', ''-----'', ''text'', '''']"
    by (simp add: editor_def)
  have m: "frontmatter 3 3 = ''markdown-zkn''" "frontmatter 3 2 \<noteq> ''markdown-zkn''"
    by (simp_all add: frontmatter_def)
  have b: "body sampleHeadingRE accepts (frontmatter 3) ?w 3
     = Inr ((3, Some ((2, 4, Simple), ModeMismatch)), 5, ?w)"
    by code_simp
  from mode_mismatch_rejected [of "frontmatter 3" 3 sampleHeadingRE ?w 2 4 Simple accepts] d w m b
  show ?thesis by simp
qed

text \<open>
  Claim C1, as the code has it. A span of the simple dialect with more than two lines
  whose second line consists of dashes only is never handed to the constructor: the
  iteration leaves by the Setext test or by one of the three tests before it, with the
  state unchanged.
\<close>

theorem setext_guard:
  assumes "getModeAt i = ''markdown-zkn''"
    and "detect re (lines w) i = Inr (Some (f, l, Simple))"
    and "Suc f < l" and "dashes (lines w ! Suc f)"
  shows "\<exists>v. (v = CursorInside \<or> v = MarkerOverlap \<or> v = ModeMismatch \<or> v = SetextGuard)
           \<and> body re fromMarkdown getModeAt w i = Inr ((i, Some ((f, l, Simple), v)), Suc l, w)"
proof -
  from assms(2) have "l < length (lines w)" by (auto dest: detect_range)
  then have gl: "getLine (lines w) l = Some (lines w ! l)" by (rule getLine_in)
  from assms(3) have len: "2 < length (markdownTable (lines w) f l)"
    by (simp add: markdownTable_length)
  from assms(3) have "markdownTable (lines w) f l ! 1 = lines w ! (f + 1)"
    by (intro markdownTable_nth) simp
  with assms(4) have d: "dashes (markdownTable (lines w) f l ! 1)" by simp
  show ?thesis
    using assms(1,2) gl len d by (auto simp: body_def convert_def Let_def)
qed

text \<open>A Setext heading with the paragraph directly below it.\<close>

theorem setext_guard_witness:
  "detect sampleHeadingRE [''Title'', ''-----'', ''next'', ''''] 1 = Inr (Some (0, 2, Simple))
   \<and> dashes ([''Title'', ''-----'', ''next'', ''''] ! Suc 0)
   \<and> body sampleHeadingRE accepts allMarkdown (editor [''Title'', ''-----'', ''next'', ''''] 3 0 4) 1
     = Inr ((1, Some ((0, 2, Simple), SetextGuard)), 3,
            editor [''Title'', ''-----'', ''next'', ''''] 3 0 4)"
proof -
  let ?w = "editor [''Title'', ''-----'', ''next'', ''''] 3 0 4"
  have d: "detect sampleHeadingRE [''Title'', ''-----'', ''next'', ''''] 1 = Inr (Some (0, 2, Simple))"
    by code_simp
  have ds: "dashes ([''Title'', ''-----'', ''next'', ''''] ! Suc 0)"
    by (simp add: dashes_def)
  have w: "lines ?w = [''Title'', ''-----'', ''next'', '''']"
    by (simp add: editor_def)
  have b: "body sampleHeadingRE accepts allMarkdown ?w 1
     = Inr ((1, Some ((0, 2, Simple), SetextGuard)), 3, ?w)"
    by code_simp
  from setext_guard [of allMarkdown 1 sampleHeadingRE ?w 0 2 accepts] d ds w b
  show ?thesis by (simp add: allMarkdown_def)
qed

text \<open>
  The claim as written covers spans of exactly two lines and every dialect. The test in
  the code asks for the simple dialect and for more than two lines: the two-line grid
  span \<open>+---+\<close>, \<open>-----\<close> is rendered, and so is the two-line headless simple span
  \<open>- -\<close>, \<open>---\<close>.
\<close>

theorem setext_guard_counterexample:
  "dashes ([''+---+'', ''-----'', ''''] ! 1)
   \<and> markdownRenderTables sampleHeadingRE accepts allMarkdown
        (editor [''+---+'', ''-----'', ''''] 2 0 3)
     = Inr ([(0, Some ((0, 1, Grid), Rendered 0)), (2, None)],
            (editor [''+---+'', ''-----'', ''''] 2 0 3)
              \<lparr>marks := [\<lparr>mid = 0, mfirst = 0, mlast = 1\<rparr>], tables := [0], fresh := 1\<rparr>)
   \<and> dashes ([''- -'', ''---'', '''', ''x''] ! 1)
   \<and> markdownRenderTables sampleHeadingRE accepts allMarkdown
        (editor [''- -'', ''---'', '''', ''x''] 3 0 4)
     = Inr ([(0, Some ((0, 1, Simple), Rendered 0)), (2, None), (3, None)],
            (editor [''- -'', ''---'', '''', ''x''] 3 0 4)
              \<lparr>marks := [\<lparr>mid = 0, mfirst = 0, mlast = 1\<rparr>], tables := [0], fresh := 1\<rparr>)"
  by code_simp

subsection \<open>The whole pass\<close>

lemma convert_lines:
  "convert fromMarkdown getModeAt w c = Inr (v, w') \<Longrightarrow> lines w' = lines w"
  by (auto simp: convert_def Let_def split: prod.splits if_splits option.splits construction.splits)

lemma convert_ok:
  "fst (snd c) < length (lines w) \<Longrightarrow> \<exists>r. convert fromMarkdown getModeAt w c = Inr r"
  by (auto simp: convert_def Let_def getLine_def split: prod.splits construction.splits)

lemma body_lines:
  "body re fromMarkdown getModeAt w i = Inr (ev, i', w') \<Longrightarrow> lines w' = lines w"
  by (auto simp: body_def split: if_splits sum.splits option.splits prod.splits dest: convert_lines)

lemma body_ok:
  assumes "i \<le> length (lines w) \<or> re ''undefined'' = None"
  shows "\<exists>r. body re fromMarkdown getModeAt w i = Inr r"
proof (cases "getModeAt i = ''markdown-zkn''")
  case False
  then show ?thesis by (simp add: body_def)
next
  case True
  from assms obtain r where r: "detect re (lines w) i = Inr r"
    using detect_ok by blast
  show ?thesis
  proof (cases r)
    case None
    with True r show ?thesis by (simp add: body_def)
  next
    case (Some c)
    obtain f l ty where c: "c = (f, l, ty)" by (cases c) auto
    with r Some have "l < length (lines w)" by (auto dest: detect_range)
    with c obtain r' where "convert fromMarkdown getModeAt w c = Inr r'"
      using convert_ok [of c w fromMarkdown getModeAt] by auto
    with True r Some show ?thesis by (auto simp: body_def split: prod.splits)
  qed
qed

lemma body_next:
  "body re fromMarkdown getModeAt w i = Inr (ev, i', w') \<Longrightarrow> i < i' \<and> fst ev = i"
  by (auto simp: body_def split: if_splits sum.splits option.splits prod.splits
           dest!: detect_range)

lemma scan_unfold:
  assumes "scan re fromMarkdown getModeAt to i w = Inr (evs, w')" and "i < to"
  obtains ev i1 w1 evs1 where
    "body re fromMarkdown getModeAt w i = Inr (ev, i1, w1)"
    "scan re fromMarkdown getModeAt to i1 w1 = Inr (evs1, w')"
    "evs = ev # evs1"
  using assms
  by (auto simp: scan.simps [of _ _ _ to i] split: sum.splits prod.splits)

text \<open>The loop returns when the viewport ends within the document (or the pattern does
  not match the word \<open>undefined\<close>).\<close>

lemma scan_ok:
  "to \<le> length (lines w) \<or> re ''undefined'' = None
     \<Longrightarrow> \<exists>r. scan re fromMarkdown getModeAt to i w = Inr r"
proof (induction re fromMarkdown getModeAt to i w rule: scan.induct)
  case (1 re fromMarkdown getModeAt to i w)
  show ?case
  proof (cases "i < to")
    case False
    then show ?thesis by (simp add: scan.simps [of _ _ _ to i])
  next
    case True
    with "1.prems" have "i \<le> length (lines w) \<or> re ''undefined'' = None" by auto
    then obtain ev i' w' where b: "body re fromMarkdown getModeAt w i = Inr (ev, i', w')"
      using body_ok [of i w re fromMarkdown getModeAt] by (metis prod_cases3)
    then have "lines w' = lines w" by (rule body_lines)
    with "1.prems" have "to \<le> length (lines w') \<or> re ''undefined'' = None" by simp
    with "1.IH" [OF True b refl refl] obtain r where
      "scan re fromMarkdown getModeAt to i' w' = Inr r" by blast
    with True b show ?thesis by (cases r) (simp add: scan.simps [of _ _ _ to i])
  qed
qed

lemma scan_tested:
  "scan re fromMarkdown getModeAt to i w = Inr (evs, w') \<Longrightarrow> \<forall>e \<in> set evs. i \<le> fst e \<and> fst e < to"
proof (induction re fromMarkdown getModeAt to i w arbitrary: evs w' rule: scan.induct)
  case (1 re fromMarkdown getModeAt to i w)
  show ?case
  proof (cases "i < to")
    case False
    with "1.prems" show ?thesis by (simp add: scan.simps [of _ _ _ to i])
  next
    case True
    from "1.prems" True obtain ev i1 w1 evs1 where
      b: "body re fromMarkdown getModeAt w i = Inr (ev, i1, w1)" and
      s: "scan re fromMarkdown getModeAt to i1 w1 = Inr (evs1, w')" and
      e: "evs = ev # evs1"
      by (rule scan_unfold)
    from b have n: "i < i1" "fst ev = i" by (auto dest: body_next)
    from "1.IH" [OF True b refl refl s] have "\<forall>e \<in> set evs1. i1 \<le> fst e \<and> fst e < to" .
    with n e True show ?thesis by auto
  qed
qed

text \<open>
  Claim C9. When the constructor raises on a span that passed every test, the iteration
  only writes the line range and the message to the console: markers and registry are
  the ones before. The loop goes on with the line after \<open>lastLine\<close>. And a pass over a
  viewport that ends within the document (or with a pattern that does not match the word
  \<open>undefined\<close>, which is what a line beyond the document reads as) returns; it raises
  nothing to its caller.
\<close>

theorem construction_failure:
  "(getModeAt i = ''markdown-zkn''
      \<and> detect re (lines w) i = Inr (Some (f, l, ty))
      \<and> \<not> (f \<le> cursor w \<and> cursor w \<le> l)
      \<and> findMarks w f l = []
      \<and> getModeAt f = ''markdown-zkn'' \<and> getModeAt l = ''markdown-zkn''
      \<and> \<not> (ty = Simple \<and> 2 < length (markdownTable (lines w) f l)
             \<and> dashes (markdownTable (lines w) f l ! 1))
      \<and> fromMarkdown (join_nl (markdownTable (lines w) f l)) ty = Malformed msg
    \<longrightarrow> body re fromMarkdown getModeAt w i
          = Inr ((i, Some ((f, l, ty), Failed msg)), Suc l,
                 w\<lparr>console := console w @ [(f, l, msg)]\<rparr>)
        \<and> (i < to \<longrightarrow>
             scan re fromMarkdown getModeAt to i w
             = (case scan re fromMarkdown getModeAt to (Suc l)
                       (w\<lparr>console := console w @ [(f, l, msg)]\<rparr>) of
                  Inl e \<Rightarrow> Inl e
                | Inr (evs, w'') \<Rightarrow> Inr ((i, Some ((f, l, ty), Failed msg)) # evs, w''))))
   \<and> (vp_to w \<le> length (lines w) \<or> re ''undefined'' = None
        \<longrightarrow> (\<exists>evs w'. markdownRenderTables re fromMarkdown getModeAt w = Inr (evs, w')))"
proof (intro conjI impI)
  assume a: "getModeAt i = ''markdown-zkn''
      \<and> detect re (lines w) i = Inr (Some (f, l, ty))
      \<and> \<not> (f \<le> cursor w \<and> cursor w \<le> l)
      \<and> findMarks w f l = []
      \<and> getModeAt f = ''markdown-zkn'' \<and> getModeAt l = ''markdown-zkn''
      \<and> \<not> (ty = Simple \<and> 2 < length (markdownTable (lines w) f l)
             \<and> dashes (markdownTable (lines w) f l ! 1))
      \<and> fromMarkdown (join_nl (markdownTable (lines w) f l)) ty = Malformed msg"
  then have "l < length (lines w)" by (auto dest: detect_range)
  then have gl: "getLine (lines w) l = Some (lines w ! l)" by (rule getLine_in)
  from a gl have c: "convert fromMarkdown getModeAt w (f, l, ty)
      = Inr (Failed msg, w\<lparr>console := console w @ [(f, l, msg)]\<rparr>)"
    by (simp add: convert_def Let_def)
  with a show b: "body re fromMarkdown getModeAt w i
          = Inr ((i, Some ((f, l, ty), Failed msg)), Suc l,
                 w\<lparr>console := console w @ [(f, l, msg)]\<rparr>)"
    by (simp add: body_def)
  assume "i < to"
  with b show "scan re fromMarkdown getModeAt to i w
             = (case scan re fromMarkdown getModeAt to (Suc l)
                       (w\<lparr>console := console w @ [(f, l, msg)]\<rparr>) of
                  Inl e \<Rightarrow> Inl e
                | Inr (evs, w'') \<Rightarrow> Inr ((i, Some ((f, l, ty), Failed msg)) # evs, w''))"
    by (simp add: scan.simps [of _ _ _ to i])
next
  assume "vp_to w \<le> length (lines w) \<or> re ''undefined'' = None"
  then obtain r where "scan re fromMarkdown getModeAt (vp_to w) (vp_from w) w = Inr r"
    using scan_ok by blast
  then show "\<exists>evs w'. markdownRenderTables re fromMarkdown getModeAt w = Inr (evs, w')"
    by (cases r) (simp add: markdownRenderTables_def)
qed

text \<open>A pipe table that the constructor refuses; the pass goes on to line 3 and
  returns.\<close>

theorem construction_failure_witness:
  "detect sampleHeadingRE [''| A | B |'', ''| - | - |'', ''| 1 | 2 |'', ''''] 1
     = Inr (Some (0, 2, Pipe))
   \<and> rejects (join_nl [''| A | B |'', ''| - | - |'', ''| 1 | 2 |'']) 
        (join_nl (markdownTable [''| A | B |'', ''| - | - |'', ''| 1 | 2 |'', ''''] 0 2)) Pipe
     = Malformed ''malformed''
   \<and> body sampleHeadingRE (rejects (join_nl [''| A | B |'', ''| - | - |'', ''| 1 | 2 |'']))
        allMarkdown (editor [''| A | B |'', ''| - | - |'', ''| 1 | 2 |'', ''''] 3 0 4) 1
     = Inr ((1, Some ((0, 2, Pipe), Failed ''malformed'')), 3,
            (editor [''| A | B |'', ''| - | - |'', ''| 1 | 2 |'', ''''] 3 0 4)
              \<lparr>console := [(0, 2, ''malformed'')]\<rparr>)
   \<and> scan sampleHeadingRE (rejects (join_nl [''| A | B |'', ''| - | - |'', ''| 1 | 2 |'']))
        allMarkdown 4 1 (editor [''| A | B |'', ''| - | - |'', ''| 1 | 2 |'', ''''] 3 0 4)
     = Inr ([(1, Some ((0, 2, Pipe), Failed ''malformed'')), (3, None)],
            (editor [''| A | B |'', ''| - | - |'', ''| 1 | 2 |'', ''''] 3 0 4)
              \<lparr>console := [(0, 2, ''malformed'')]\<rparr>)
   \<and> (\<exists>evs w'. markdownRenderTables sampleHeadingRE
          (rejects (join_nl [''| A | B |'', ''| - | - |'', ''| 1 | 2 |''])) allMarkdown
          (editor [''| A | B |'', ''| - | - |'', ''| 1 | 2 |'', ''''] 3 0 4)
        = Inr (evs, w'))"
proof -
  let ?ls = "[''| A | B |'', ''| - | - |'', ''| 1 | 2 |'', '''']"
  let ?w = "editor ?ls 3 0 4"
  let ?fm = "rejects (join_nl [''| A | B |'', ''| - | - |'', ''| 1 | 2 |''])"
  have d: "detect sampleHeadingRE ?ls 1 = Inr (Some (0, 2, Pipe))"
    by code_simp
  have w: "lines ?w = ?ls" "cursor ?w = 3" "vp_to ?w = 4" "console ?w = []"
    by (simp_all add: editor_def)
  have fm: "findMarks ?w 0 2 = []"
    by (simp add: findMarks_def editor_def)
  have r: "?fm (join_nl (markdownTable ?ls 0 2)) Pipe = Malformed ''malformed''"
    by code_simp
  have rest: "scan sampleHeadingRE ?fm allMarkdown 4 (Suc 2) (?w\<lparr>console := [(0, 2, ''malformed'')]\<rparr>)
     = Inr ([(3, None)], ?w\<lparr>console := [(0, 2, ''malformed'')]\<rparr>)"
    by code_simp
  show ?thesis
    using construction_failure [of allMarkdown 1 sampleHeadingRE ?w 0 2 Pipe ?fm
        "''malformed''" 4] d w fm r rest
    by (simp add: allMarkdown_def)
qed

text \<open>An iteration works on the span that \<open>detect\<close> found in the document.\<close>

lemma body_of_detect:
  assumes "getModeAt i = ''markdown-zkn''" and "detect re (lines w) i = Inr (Some c)"
  shows "\<exists>v w'. body re fromMarkdown getModeAt w i = Inr ((i, Some (c, v)), Suc (fst (snd c)), w')"
proof -
  obtain f l ty where c: "c = (f, l, ty)" by (cases c) auto
  with assms(2) have "l < length (lines w)" by (auto dest: detect_range)
  with c obtain r where "convert fromMarkdown getModeAt w c = Inr r"
    using convert_ok [of c w fromMarkdown getModeAt] by auto
  with assms show ?thesis by (cases r) (simp add: body_def)
qed

text \<open>
  Claim C10. The indices at which a pass tests for a heading lie in
  \<open>vp_from \<le> i < vp_to\<close>, so the line with index \<open>vp_to\<close> is never tested. Once
  a heading matched at \<open>i\<close>, the iteration works on the span that the forward scan fixes
  from the document alone: in each of the four scans (grid, pipe, simple with a header,
  simple without one) the terminating line \<open>j\<close> is found wherever it lies before the end
  of the document, whatever the viewport, and a document without a terminating line
  gives no span. In the last document the viewport ends before line 2 and the rendered
  span ends at line 3.
\<close>

theorem viewport_bounds_tests_not_spans:
  "(markdownRenderTables re fromMarkdown getModeAt w = Inr (evs, w')
      \<longrightarrow> (\<forall>e \<in> set evs. vp_from w \<le> fst e \<and> fst e < vp_to w) \<and> vp_to w \<notin> fst ` set evs)
   \<and> (getModeAt i = ''markdown-zkn'' \<and> detect re (lines w) i = Inr (Some c)
      \<longrightarrow> (\<exists>v w1. body re fromMarkdown getModeAt w i
                     = Inr ((i, Some (c, v)), Suc (fst (snd c)), w1)))
   \<and> (i < length (lines w) \<and> re (lines w ! i) = Some Grid
        \<and> i < j \<and> j < length (lines w) \<and> blank (lines w ! j)
        \<and> (\<forall>k. i < k \<and> k < j \<longrightarrow> \<not> blank (lines w ! k))
      \<longrightarrow> detect re (lines w) i = Inr (if j = Suc i then None else Some (i, j - 1, Grid)))
   \<and> (i < length (lines w) \<and> re (lines w ! i) = Some Grid
        \<and> (\<forall>k. i < k \<and> k < length (lines w) \<longrightarrow> \<not> blank (lines w ! k))
      \<longrightarrow> detect re (lines w) i = Inr None)
   \<and> (i < length (lines w) \<and> re (lines w ! i) = Some Pipe
        \<and> 0 < i \<and> \<not> blank (lines w ! (i - 1))
        \<and> i \<le> j \<and> j < length (lines w) \<and> blank (lines w ! j)
        \<and> (\<forall>k. i \<le> k \<and> k < j \<longrightarrow> \<not> blank (lines w ! k))
      \<longrightarrow> detect re (lines w) i = Inr (if j = i then None else Some (i - 1, j - 1, Pipe)))
   \<and> (i < length (lines w) \<and> re (lines w ! i) = Some Pipe
        \<and> 0 < i \<and> \<not> blank (lines w ! (i - 1))
        \<and> (\<forall>k. i \<le> k \<and> k < length (lines w) \<longrightarrow> \<not> blank (lines w ! k))
      \<longrightarrow> detect re (lines w) i = Inr None)
   \<and> (re (lines w ! i) = Some Simple \<and> Suc i < length (lines w) \<and> \<not> blank (lines w ! Suc i)
        \<and> 0 < i \<and> \<not> blank (lines w ! (i - 1))
        \<and> i \<le> j \<and> j < length (lines w) \<and> blank (lines w ! j)
        \<and> (\<forall>k. i \<le> k \<and> k < j \<longrightarrow> \<not> blank (lines w ! k))
      \<longrightarrow> detect re (lines w) i = Inr (if j = i then None else Some (i - 1, j - 1, Simple)))
   \<and> (re (lines w ! i) = Some Simple \<and> Suc i < length (lines w) \<and> \<not> blank (lines w ! Suc i)
        \<and> 0 < i \<and> \<not> blank (lines w ! (i - 1))
        \<and> (\<forall>k. i \<le> k \<and> k < length (lines w) \<longrightarrow> \<not> blank (lines w ! k))
      \<longrightarrow> detect re (lines w) i = Inr None)
   \<and> (re (lines w ! i) = Some Simple \<and> Suc i < length (lines w) \<and> \<not> blank (lines w ! Suc i)
        \<and> (i = 0 \<or> blank (lines w ! (i - 1)))
        \<and> i < j \<and> j < length (lines w)
        \<and> (blank (lines w ! j) \<or> re (lines w ! j) = Some Simple)
        \<and> (\<forall>k. i < k \<and> k < j \<longrightarrow> \<not> blank (lines w ! k) \<and> re (lines w ! k) \<noteq> Some Simple)
      \<longrightarrow> detect re (lines w) i
            = Inr (if blank (lines w ! j) then None else Some (i, j, Simple)))
   \<and> (re (lines w ! i) = Some Simple \<and> Suc i < length (lines w) \<and> \<not> blank (lines w ! Suc i)
        \<and> (i = 0 \<or> blank (lines w ! (i - 1)))
        \<and> (\<forall>k. i < k \<and> k < length (lines w)
               \<longrightarrow> \<not> blank (lines w ! k) \<and> re (lines w ! k) \<noteq> Some Simple)
      \<longrightarrow> detect re (lines w) i = Inr None)
   \<and> markdownRenderTables sampleHeadingRE accepts allMarkdown
        (editor [''| A | B |'', ''| - | - |'', ''| 1 | 2 |'', ''| 3 | 4 |'', ''''] 4 0 2)
     = Inr ([(0, None), (1, Some ((0, 3, Pipe), Rendered 0))],
            (editor [''| A | B |'', ''| - | - |'', ''| 1 | 2 |'', ''| 3 | 4 |'', ''''] 4 0 2)
              \<lparr>marks := [\<lparr>mid = 0, mfirst = 0, mlast = 3\<rparr>], tables := [0], fresh := 1\<rparr>)"
proof (intro conjI impI)
  assume "markdownRenderTables re fromMarkdown getModeAt w = Inr (evs, w')"
  then show t: "\<forall>e \<in> set evs. vp_from w \<le> fst e \<and> fst e < vp_to w"
    unfolding markdownRenderTables_def by (rule scan_tested)
  then show "vp_to w \<notin> fst ` set evs" by auto
next
  assume "getModeAt i = ''markdown-zkn'' \<and> detect re (lines w) i = Inr (Some c)"
  then show "\<exists>v w1. body re fromMarkdown getModeAt w i
                     = Inr ((i, Some (c, v)), Suc (fst (snd c)), w1)"
    using body_of_detect by blast
next
  assume "i < length (lines w) \<and> re (lines w ! i) = Some Grid
        \<and> i < j \<and> j < length (lines w) \<and> blank (lines w ! j)
        \<and> (\<forall>k. i < k \<and> k < j \<longrightarrow> \<not> blank (lines w ! k))"
  then show "detect re (lines w) i = Inr (if j = Suc i then None else Some (i, j - 1, Grid))"
    by (intro detect_grid(1)) auto
next
  assume "i < length (lines w) \<and> re (lines w ! i) = Some Grid
        \<and> (\<forall>k. i < k \<and> k < length (lines w) \<longrightarrow> \<not> blank (lines w ! k))"
  then show "detect re (lines w) i = Inr None"
    by (intro detect_grid(2)) auto
next
  assume "i < length (lines w) \<and> re (lines w ! i) = Some Pipe
        \<and> 0 < i \<and> \<not> blank (lines w ! (i - 1))
        \<and> i \<le> j \<and> j < length (lines w) \<and> blank (lines w ! j)
        \<and> (\<forall>k. i \<le> k \<and> k < j \<longrightarrow> \<not> blank (lines w ! k))"
  then show "detect re (lines w) i = Inr (if j = i then None else Some (i - 1, j - 1, Pipe))"
    by (intro detect_pipe(1)) auto
next
  assume "i < length (lines w) \<and> re (lines w ! i) = Some Pipe
        \<and> 0 < i \<and> \<not> blank (lines w ! (i - 1))
        \<and> (\<forall>k. i \<le> k \<and> k < length (lines w) \<longrightarrow> \<not> blank (lines w ! k))"
  then show "detect re (lines w) i = Inr None"
    by (intro detect_pipe(2)) auto
next
  assume "re (lines w ! i) = Some Simple \<and> Suc i < length (lines w) \<and> \<not> blank (lines w ! Suc i)
        \<and> 0 < i \<and> \<not> blank (lines w ! (i - 1))
        \<and> i \<le> j \<and> j < length (lines w) \<and> blank (lines w ! j)
        \<and> (\<forall>k. i \<le> k \<and> k < j \<longrightarrow> \<not> blank (lines w ! k))"
  then show "detect re (lines w) i = Inr (if j = i then None else Some (i - 1, j - 1, Simple))"
    by (intro detect_headed(1)) auto
next
  assume "re (lines w ! i) = Some Simple \<and> Suc i < length (lines w) \<and> \<not> blank (lines w ! Suc i)
        \<and> 0 < i \<and> \<not> blank (lines w ! (i - 1))
        \<and> (\<forall>k. i \<le> k \<and> k < length (lines w) \<longrightarrow> \<not> blank (lines w ! k))"
  then show "detect re (lines w) i = Inr None"
    by (intro detect_headed(2)) auto
next
  assume "re (lines w ! i) = Some Simple \<and> Suc i < length (lines w) \<and> \<not> blank (lines w ! Suc i)
        \<and> (i = 0 \<or> blank (lines w ! (i - 1)))
        \<and> i < j \<and> j < length (lines w)
        \<and> (blank (lines w ! j) \<or> re (lines w ! j) = Some Simple)
        \<and> (\<forall>k. i < k \<and> k < j \<longrightarrow> \<not> blank (lines w ! k) \<and> re (lines w ! k) \<noteq> Some Simple)"
  then show "detect re (lines w) i
            = Inr (if blank (lines w ! j) then None else Some (i, j, Simple))"
    by (intro detect_headless(1)) auto
next
  assume "re (lines w ! i) = Some Simple \<and> Suc i < length (lines w) \<and> \<not> blank (lines w ! Suc i)
        \<and> (i = 0 \<or> blank (lines w ! (i - 1)))
        \<and> (\<forall>k. i < k \<and> k < length (lines w)
               \<longrightarrow> \<not> blank (lines w ! k) \<and> re (lines w ! k) \<noteq> Some Simple)"
  then show "detect re (lines w) i = Inr None"
    by (intro detect_headless(2)) auto
next
  show "markdownRenderTables sampleHeadingRE accepts allMarkdown
        (editor [''| A | B |'', ''| - | - |'', ''| 1 | 2 |'', ''| 3 | 4 |'', ''''] 4 0 2)
     = Inr ([(0, None), (1, Some ((0, 3, Pipe), Rendered 0))],
            (editor [''| A | B |'', ''| - | - |'', ''| 1 | 2 |'', ''| 3 | 4 |'', ''''] 4 0 2)
              \<lparr>marks := [\<lparr>mid = 0, mfirst = 0, mlast = 3\<rparr>], tables := [0], fresh := 1\<rparr>)"
    by code_simp
qed

text \<open>The pass over the pipe table whose viewport ends before line 2, and one document for
  each scan with its terminating line, and one without.\<close>

theorem viewport_bounds_tests_not_spans_witness:
  "list_all (\<lambda>e. fst e < (2::nat)) [(0::nat, None), (1, Some ((0::nat, 3::nat, Pipe), Rendered 0))]
   \<and> (2::nat) \<notin> fst ` set [(0::nat, None), (1, Some ((0::nat, 3::nat, Pipe), Rendered 0))]
   \<and> detect sampleHeadingRE [''| A | B |'', ''| - | - |'', ''| 1 | 2 |'', ''| 3 | 4 |'', ''''] 1
       = Inr (Some (0, 3, Pipe))
   \<and> (\<exists>v w1. body sampleHeadingRE accepts allMarkdown
         (editor [''| A | B |'', ''| - | - |'', ''| 1 | 2 |'', ''| 3 | 4 |'', ''''] 4 0 2) 1
       = Inr ((1, Some ((0, 3, Pipe), v)), 4, w1))
   \<and> detect sampleHeadingRE [''| A | B |'', ''| - | - |'', ''| 1 | 2 |''] 1 = Inr None
   \<and> detect sampleHeadingRE [''+---+'', ''| a |'', ''+---+'', ''''] 0 = Inr (Some (0, 2, Grid))
   \<and> detect sampleHeadingRE [''+---+'', ''| a |'', ''+---+''] 0 = Inr None
   \<and> detect sampleHeadingRE [''A   B'', ''--- ---'', ''a   b'', ''''] 1 = Inr (Some (0, 2, Simple))
   \<and> detect sampleHeadingRE [''A   B'', ''--- ---'', ''a   b''] 1 = Inr None
   \<and> detect sampleHeadingRE [''--- ---'', ''a   b'', ''--- ---'', ''''] 0
       = Inr (Some (0, 2, Simple))
   \<and> detect sampleHeadingRE [''--- ---'', ''a   b''] 0 = Inr None"
proof -
  let ?p = "editor [''| A | B |'', ''| - | - |'', ''| 1 | 2 |'', ''| 3 | 4 |'', ''''] 4 0 2"
  let ?evs = "[(0::nat, None), (1, Some ((0::nat, 3::nat, Pipe), Rendered 0))]"
  let ?p' = "?p\<lparr>marks := [\<lparr>mid = 0, mfirst = 0, mlast = 3\<rparr>], tables := [0], fresh := 1\<rparr>"
  note P = viewport_bounds_tests_not_spans
    [of sampleHeadingRE accepts allMarkdown ?p ?evs ?p' 1 "(0, 3, Pipe)" 4]
  have vp: "vp_from ?p = 0" "vp_to ?p = 2" by (simp_all add: editor_def)
  from P have pass: "markdownRenderTables sampleHeadingRE accepts allMarkdown ?p = Inr (?evs, ?p')"
    by (elim conjE)
  from P [THEN conjunct1, THEN mp, OF pass] vp
  have a: "list_all (\<lambda>e. fst e < (2::nat)) ?evs \<and> (2::nat) \<notin> fst ` set ?evs"
    by (simp add: list_all_iff)
  have hp: "1 < length (lines ?p) \<and> sampleHeadingRE (lines ?p ! 1) = Some Pipe
        \<and> 0 < (1::nat) \<and> \<not> blank (lines ?p ! (1 - 1))
        \<and> 1 \<le> (4::nat) \<and> 4 < length (lines ?p) \<and> blank (lines ?p ! 4)
        \<and> (\<forall>k. 1 \<le> k \<and> k < 4 \<longrightarrow> \<not> blank (lines ?p ! k))"
    unfolding all_from by code_simp
  from P [THEN conjunct2, THEN conjunct2, THEN conjunct2, THEN conjunct2, THEN conjunct1,
      THEN mp, OF hp]
  have b: "detect sampleHeadingRE [''| A | B |'', ''| - | - |'', ''| 1 | 2 |'', ''| 3 | 4 |'', ''''] 1
       = Inr (Some (0, 3, Pipe))"
    by (simp add: editor_def)
  have "allMarkdown 1 = ''markdown-zkn'' \<and> detect sampleHeadingRE (lines ?p) 1 = Inr (Some (0, 3, Pipe))"
    using b by (simp add: editor_def allMarkdown_def)
  from P [THEN conjunct2, THEN conjunct1, THEN mp, OF this]
  have c: "\<exists>v w1. body sampleHeadingRE accepts allMarkdown ?p 1
       = Inr ((1, Some ((0, 3, Pipe), v)), 4, w1)"
    by simp

  let ?q = "editor [''| A | B |'', ''| - | - |'', ''| 1 | 2 |''] 0 0 2"
  have hq: "1 < length (lines ?q) \<and> sampleHeadingRE (lines ?q ! 1) = Some Pipe
        \<and> 0 < (1::nat) \<and> \<not> blank (lines ?q ! (1 - 1))
        \<and> (\<forall>k. 1 \<le> k \<and> k < length (lines ?q) \<longrightarrow> \<not> blank (lines ?q ! k))"
    unfolding all_from by code_simp
  from viewport_bounds_tests_not_spans [of sampleHeadingRE accepts allMarkdown ?q _ _ 1 _ 0,
      THEN conjunct2, THEN conjunct2, THEN conjunct2, THEN conjunct2, THEN conjunct2,
      THEN conjunct1, THEN mp, OF hq]
  have d: "detect sampleHeadingRE [''| A | B |'', ''| - | - |'', ''| 1 | 2 |''] 1 = Inr None"
    by (simp add: editor_def)

  let ?g = "editor [''+---+'', ''| a |'', ''+---+'', ''''] 3 0 1"
  have hg: "0 < length (lines ?g) \<and> sampleHeadingRE (lines ?g ! 0) = Some Grid
        \<and> 0 < (3::nat) \<and> 3 < length (lines ?g) \<and> blank (lines ?g ! 3)
        \<and> (\<forall>k. 0 < k \<and> k < 3 \<longrightarrow> \<not> blank (lines ?g ! k))"
    unfolding all_after by code_simp
  from viewport_bounds_tests_not_spans [of sampleHeadingRE accepts allMarkdown ?g _ _ 0 _ 3,
      THEN conjunct2, THEN conjunct2, THEN conjunct1, THEN mp, OF hg]
  have e: "detect sampleHeadingRE [''+---+'', ''| a |'', ''+---+'', ''''] 0 = Inr (Some (0, 2, Grid))"
    by (simp add: editor_def)

  let ?g0 = "editor [''+---+'', ''| a |'', ''+---+''] 0 0 1"
  have hg0: "0 < length (lines ?g0) \<and> sampleHeadingRE (lines ?g0 ! 0) = Some Grid
        \<and> (\<forall>k. 0 < k \<and> k < length (lines ?g0) \<longrightarrow> \<not> blank (lines ?g0 ! k))"
    unfolding all_after by code_simp
  from viewport_bounds_tests_not_spans [of sampleHeadingRE accepts allMarkdown ?g0 _ _ 0 _ 0,
      THEN conjunct2, THEN conjunct2, THEN conjunct2, THEN conjunct1, THEN mp, OF hg0]
  have f: "detect sampleHeadingRE [''+---+'', ''| a |'', ''+---+''] 0 = Inr None"
    by (simp add: editor_def)

  let ?h = "editor [''A   B'', ''--- ---'', ''a   b'', ''''] 3 0 2"
  have hh: "sampleHeadingRE (lines ?h ! 1) = Some Simple \<and> Suc 1 < length (lines ?h)
        \<and> \<not> blank (lines ?h ! Suc 1) \<and> 0 < (1::nat) \<and> \<not> blank (lines ?h ! (1 - 1))
        \<and> 1 \<le> (3::nat) \<and> 3 < length (lines ?h) \<and> blank (lines ?h ! 3)
        \<and> (\<forall>k. 1 \<le> k \<and> k < 3 \<longrightarrow> \<not> blank (lines ?h ! k))"
    unfolding all_from by code_simp
  from viewport_bounds_tests_not_spans [of sampleHeadingRE accepts allMarkdown ?h _ _ 1 _ 3,
      THEN conjunct2, THEN conjunct2, THEN conjunct2, THEN conjunct2, THEN conjunct2,
      THEN conjunct2, THEN conjunct1, THEN mp, OF hh]
  have g: "detect sampleHeadingRE [''A   B'', ''--- ---'', ''a   b'', ''''] 1 = Inr (Some (0, 2, Simple))"
    by (simp add: editor_def)

  let ?h0 = "editor [''A   B'', ''--- ---'', ''a   b''] 0 0 2"
  have hh0: "sampleHeadingRE (lines ?h0 ! 1) = Some Simple \<and> Suc 1 < length (lines ?h0)
        \<and> \<not> blank (lines ?h0 ! Suc 1) \<and> 0 < (1::nat) \<and> \<not> blank (lines ?h0 ! (1 - 1))
        \<and> (\<forall>k. 1 \<le> k \<and> k < length (lines ?h0) \<longrightarrow> \<not> blank (lines ?h0 ! k))"
    unfolding all_from by code_simp
  from viewport_bounds_tests_not_spans [of sampleHeadingRE accepts allMarkdown ?h0 _ _ 1 _ 0,
      THEN conjunct2, THEN conjunct2, THEN conjunct2, THEN conjunct2, THEN conjunct2,
      THEN conjunct2, THEN conjunct2, THEN conjunct1, THEN mp, OF hh0]
  have h: "detect sampleHeadingRE [''A   B'', ''--- ---'', ''a   b''] 1 = Inr None"
    by (simp add: editor_def)

  let ?s = "editor [''--- ---'', ''a   b'', ''--- ---'', ''''] 3 0 1"
  have hs: "sampleHeadingRE (lines ?s ! 0) = Some Simple \<and> Suc 0 < length (lines ?s)
        \<and> \<not> blank (lines ?s ! Suc 0) \<and> ((0::nat) = 0 \<or> blank (lines ?s ! (0 - 1)))
        \<and> 0 < (2::nat) \<and> 2 < length (lines ?s)
        \<and> (blank (lines ?s ! 2) \<or> sampleHeadingRE (lines ?s ! 2) = Some Simple)
        \<and> (\<forall>k. 0 < k \<and> k < 2 \<longrightarrow> \<not> blank (lines ?s ! k) \<and> sampleHeadingRE (lines ?s ! k) \<noteq> Some Simple)"
    unfolding all_after by code_simp
  have nb: "\<not> blank (lines ?s ! 2)" by code_simp
  from viewport_bounds_tests_not_spans [of sampleHeadingRE accepts allMarkdown ?s _ _ 0 _ 2,
      THEN conjunct2, THEN conjunct2, THEN conjunct2, THEN conjunct2, THEN conjunct2,
      THEN conjunct2, THEN conjunct2, THEN conjunct2, THEN conjunct1, THEN mp, OF hs] nb
  have i: "detect sampleHeadingRE [''--- ---'', ''a   b'', ''--- ---'', ''''] 0
       = Inr (Some (0, 2, Simple))"
    by (simp add: editor_def)

  let ?s0 = "editor [''--- ---'', ''a   b''] 0 0 1"
  have hs0: "sampleHeadingRE (lines ?s0 ! 0) = Some Simple \<and> Suc 0 < length (lines ?s0)
        \<and> \<not> blank (lines ?s0 ! Suc 0) \<and> ((0::nat) = 0 \<or> blank (lines ?s0 ! (0 - 1)))
        \<and> (\<forall>k. 0 < k \<and> k < length (lines ?s0)
               \<longrightarrow> \<not> blank (lines ?s0 ! k) \<and> sampleHeadingRE (lines ?s0 ! k) \<noteq> Some Simple)"
    unfolding all_after by code_simp
  from viewport_bounds_tests_not_spans [of sampleHeadingRE accepts allMarkdown ?s0 _ _ 0 _ 0,
      THEN conjunct2, THEN conjunct2, THEN conjunct2, THEN conjunct2, THEN conjunct2,
      THEN conjunct2, THEN conjunct2, THEN conjunct2, THEN conjunct2, THEN conjunct1,
      THEN mp, OF hs0]
  have j: "detect sampleHeadingRE [''--- ---'', ''a   b''] 0 = Inr None"
    by (simp add: editor_def)

  from a b c d e f g h i j show ?thesis by blast
qed

subsection \<open>The spans of one pass\<close>










subsection \<open>The write-back reaction\<close>

text \<open>What the reaction does to the registry when the marker is live: nothing when the
  table stands at index 0, a \<open>splice\<close> at the index found, or at \<open>-1\<close>,
  otherwise.\<close>

lemma onBlur_tables:
  "find_marker w k = FromTo a b \<Longrightarrow>
     \<exists>w'. onBlur (Some k) t md w = Inr w'
        \<and> tables w' =
            (if indexOf (tables w) t = 0 then tables w
             else splice (tables w) (indexOf (tables w) t))"
  by (simp add: onBlur_def Let_def clear_def replaceRange_def)

text \<open>The two ways the reaction can meet a binding that is not live: a marker variable
  that is still undefined makes it return with the state unchanged; a marker that was
  cleared makes it raise.\<close>

lemma onBlur_unassigned: "onBlur None t md w = Inr w"
  by (simp add: onBlur_def)

lemma onBlur_cleared:
  "find_marker w k = UndefinedValue \<Longrightarrow> onBlur (Some k) t md w = Inl TypeError"
  by (simp add: onBlur_def Let_def)

text \<open>
  Claim C2. After a pass rendered the first table of a session, the registry holds that
  table at index 0 and its marker is live. When the reaction fires for it, the text is
  written back and the marker is cleared, but the registry still holds the table:
  \<open>indexOf\<close> yields 0, which the test \<open>if (found)\<close> takes for "not found".
\<close>

theorem onBlur_keeps_first_table:
  "markdownRenderTables sampleHeadingRE accepts allMarkdown
      (editor [''| A | B |'', ''| - | - |'', ''| 1 | 2 |'', ''''] 3 0 4)
   = Inr ([(0, None), (1, Some ((0, 2, Pipe), Rendered 0)), (3, None)],
          (editor [''| A | B |'', ''| - | - |'', ''| 1 | 2 |'', ''''] 3 0 4)
            \<lparr>marks := [\<lparr>mid = 0, mfirst = 0, mlast = 2\<rparr>], tables := [0], fresh := 1\<rparr>)
   \<and> find_marker
        ((editor [''| A | B |'', ''| - | - |'', ''| 1 | 2 |'', ''''] 3 0 4)
           \<lparr>marks := [\<lparr>mid = 0, mfirst = 0, mlast = 2\<rparr>], tables := [0], fresh := 1\<rparr>) 0
     = FromTo 0 2
   \<and> onBlur (Some 0) 0 (join_nl [''| A | B |'', ''| - | - |'', ''| 7 | 2 |'', ''''])
        ((editor [''| A | B |'', ''| - | - |'', ''| 1 | 2 |'', ''''] 3 0 4)
           \<lparr>marks := [\<lparr>mid = 0, mfirst = 0, mlast = 2\<rparr>], tables := [0], fresh := 1\<rparr>)
     = Inr ((editor [''| A | B |'', ''| - | - |'', ''| 7 | 2 |'', ''''] 3 0 4)
              \<lparr>marks := [], tables := [0], fresh := 1\<rparr>)"
  by code_simp

text \<open>
  Claim C3. The claim has the reaction return without an error, and with buffer,
  bindings and registry unchanged, when it fires after its binding was cleared. Below
  it fires a second time, after the write-back above cleared marker 0: \<open>find()\<close>
  answers \<open>undefined\<close>, which is not strictly equal to \<open>false\<close>, so line 318 does
  not return and the destructuring at line 330 raises a TypeError. Nothing was written
  before that line, but the error goes to the caller.
\<close>

theorem onBlur_stale_binding_raises:
  "find_marker
      ((editor [''| A | B |'', ''| - | - |'', ''| 7 | 2 |'', ''''] 3 0 4)
         \<lparr>marks := [], tables := [0], fresh := 1\<rparr>) 0 = UndefinedValue
   \<and> onBlur (Some 0) 0 (join_nl [''| A | B |'', ''| - | - |'', ''| 7 | 2 |'', ''''])
        ((editor [''| A | B |'', ''| - | - |'', ''| 7 | 2 |'', ''''] 3 0 4)
           \<lparr>marks := [], tables := [0], fresh := 1\<rparr>)
     = Inl TypeError"
  by code_simp

end
